theory Spec2Isabelle
  imports Complex_Main
begin

section \<open>Memory monitor: data model\<close>

text \<open>
  The TypeScript type \<open>number\<close> is modelled by \<^typ>\<open>real\<close>: byte counts and
  millisecond timestamps are finite numbers, and the arithmetic of the monitor is read over
  the reals (no rounding, no NaN, no infinities). Optional fields of an interface are
  \<^typ>\<open>'a option\<close>.
\<close>

record MemoryMeasurement =
  timestamp :: real
  heapUsed :: real
  heapTotal :: real
  external :: real
  arrayBuffers :: real
  jsHeapSizeLimit :: "real option"
  usedJSHeapSize :: "real option"
  totalJSHeapSize :: "real option"
  testPhase :: string
  componentCount :: "real option"
  terminalCount :: "real option"
  listenerCount :: "real option"
  fileWatcherCount :: "real option"
  streamReaderCount :: "real option"

text \<open>
  \<open>MemoryReport\<close>; its field \<open>measurements\<close> is named \<open>report_measurements\<close> here,
  since the monitor's own field keeps the name.
\<close>

record MemoryReport =
  baseline :: real
  current :: real
  peak :: real
  growth :: real
  report_measurements :: "MemoryMeasurement list"
  leakDetected :: bool
  averageGrowthRate :: real
  memoryEfficiency :: real

text \<open>The private state of class \<open>MemoryMonitor\<close> that the report depends on.\<close>

record MemoryMonitor =
  measurements :: "MemoryMeasurement list"
  isMonitoring :: bool
  intervalId :: "nat option"
  startTime :: real

section \<open>Memory monitor: operations\<close>

text \<open>\<open>Array.prototype.slice(-k)\<close>: the last \<open>k\<close> elements, the whole array when it is shorter.\<close>

definition slice_last :: "nat \<Rightarrow> 'a list \<Rightarrow> 'a list" where
  "slice_last k xs = drop (length xs - k) xs"

text \<open>
  \<open>Math.max(...xs)\<close> of an array with first element \<open>x\<close> and rest \<open>xs\<close>. The spread of
  an empty array (\<open>-Infinity\<close>) is never evaluated: both callers return before it when the
  log is empty.
\<close>

definition Math_max :: "real \<Rightarrow> real list \<Rightarrow> real" where
  "Math_max x xs = fold max xs x"

text \<open>
  \<open>calculateTrend\<close>: \<open>values.reduce((a, b) => a + b, 0)\<close> is a left fold, and
  \<open>values.reduce((sum, y, x) => sum + x * y, 0)\<close> is a left fold over the elements paired
  with their indices.
\<close>

definition calculateTrend :: "real list \<Rightarrow> real" where
  "calculateTrend values =
     (let n = real (length values) in
      if length values < 2 then 0
      else
        let sumX = n * (n - 1) / 2;
            sumY = foldl (\<lambda>a b. a + b) 0 values;
            sumXY = foldl (\<lambda>sum (x, y). sum + real x * y) 0 (zip [0..<length values] values);
            sumX2 = n * (n - 1) * (2 * n - 1) / 6;
            denominator = n * sumX2 - sumX * sumX
        in if denominator \<noteq> 0 then (n * sumXY - sumX * sumY) / denominator else 0)"

definition detectLeak :: "MemoryMeasurement list \<Rightarrow> bool" where
  "detectLeak ms =
     (if length ms < 10 then False
      else
        let recent = slice_last 10 ms;
            trend = calculateTrend (map heapUsed recent);
            leakThreshold = 1024 * 1024
        in trend > leakThreshold)"

fun calculateAverageGrowthRate :: "MemoryMeasurement list \<Rightarrow> real" where
  "calculateAverageGrowthRate [] = 0"
| "calculateAverageGrowthRate [m] = 0"
| "calculateAverageGrowthRate (b # m # ms) =
     (let cur = last (m # ms);
          timeDiff = (timestamp cur - timestamp b) / 1000;
          memoryDiff = heapUsed cur - heapUsed b
      in if timeDiff > 0 then memoryDiff / timeDiff else 0)"

text \<open>
  \<open>calculateMemoryEfficiency\<close>: the first two equations are the guard
  \<open>measurements.length < 2\<close>.
\<close>

fun calculateMemoryEfficiency :: "MemoryMeasurement list \<Rightarrow> real" where
  "calculateMemoryEfficiency [] = 1"
| "calculateMemoryEfficiency [m] = 1"
| "calculateMemoryEfficiency (b # m # ms) =
     (let pk = Math_max (heapUsed b) (map heapUsed (m # ms));
          cur = last (m # ms)
      in if pk = heapUsed b then 1
         else
           let efficiency = 1 - ((heapUsed cur - heapUsed b) / (pk - heapUsed b))
           in max 0 (min 1 efficiency))"

text \<open>\<open>getReport\<close>: the first equation is the guard \<open>measurements.length === 0\<close>.\<close>

fun getReport :: "MemoryMeasurement list \<Rightarrow> MemoryReport" where
  "getReport [] =
     \<lparr>baseline = 0, current = 0, peak = 0, growth = 0, report_measurements = [],
      leakDetected = False, averageGrowthRate = 0, memoryEfficiency = 1\<rparr>"
| "getReport (b # ms) =
     (let cur = last (b # ms);
          pk = Math_max (heapUsed b) (map heapUsed ms);
          gr = heapUsed cur - heapUsed b
      in \<lparr>baseline = heapUsed b, current = heapUsed cur, peak = pk, growth = gr,
          report_measurements = b # ms,
          leakDetected = detectLeak (b # ms),
          averageGrowthRate = calculateAverageGrowthRate (b # ms),
          memoryEfficiency = calculateMemoryEfficiency (b # ms)\<rparr>)"

text \<open>The methods of the class that change or read the log.\<close>

definition clear :: "MemoryMonitor \<Rightarrow> MemoryMonitor" where
  "clear this = this\<lparr>measurements := [], startTime := 0\<rparr>"

definition monitor_getReport :: "MemoryMonitor \<Rightarrow> MemoryReport" where
  "monitor_getReport this = getReport (measurements this)"


text \<open>A sample with the given \<open>heapUsed\<close> and nothing else of interest, for concrete logs.\<close>

definition sample :: "real \<Rightarrow> MemoryMeasurement" where
  "sample h =
     \<lparr>timestamp = 0, heapUsed = h, heapTotal = 0, external = 0, arrayBuffers = 0,
      jsHeapSizeLimit = None, usedJSHeapSize = None, totalJSHeapSize = None,
      testPhase = ''monitoring'', componentCount = None, terminalCount = None,
      listenerCount = None, fileWatcherCount = None, streamReaderCount = None\<rparr>"

section \<open>File watcher: data model\<close>

text \<open>
  Callbacks, interval handles and native watchers are compared by identity in the source
  (members of a \<open>Set\<close>, arguments of \<open>clearInterval\<close>); each is a number here. Interval
  handles are positive, so the truthiness test on \<open>pollingInterval\<close> is the test for
  \<open>null\<close>.
\<close>

type_synonym callback = nat
type_synonym timer = nat
type_synonym watcher = nat

text \<open>
  The three states of \<open>localStorage\<close> that the two storage helpers distinguish: not
  defined in this host, defined but throwing when used (the \<open>catch\<close> branch), and a working
  key-value store.
\<close>

datatype local_storage = Undefined | Throwing | Storage "string \<rightharpoonup> string"

text \<open>
  What \<open>await webcontainer.fs.watch(pattern, ...)\<close> does in one call: it rejects, or it
  resolves with a watcher that accepts a change listener; the flag says whether that
  watcher's \<open>close()\<close> throws. Likewise for \<open>webcontainer.internal.watchPaths(config, callback)\<close>.
\<close>

datatype fs_watch_result = Watch_rejects | Watch_resolves (close_throws: bool)

datatype watchPaths_result = WatchPaths_throws | WatchPaths_returns

datatype js_error = Error string

text \<open>
  The module-level object \<open>watcherState\<close> (first seven fields, with the source's names)
  together with the part of the host it acts on: local storage, whether \<open>window\<close> exists,
  the running intervals, the log of \<open>clearInterval\<close> calls, the cleanup listeners registered
  on \<open>window\<close>, the open native watchers with the pattern their change listener is bound
  to, and the log of \<open>fs.watch\<close> calls. \<open>callbacks\<close> is a \<open>Map\<close> from pattern to a \<open>Set\<close> of
  callbacks, both iterated in insertion order: an association list of lists.
\<close>

record watcher_world =
  fallbackEnabled :: bool
  watchingPaths :: "string set"
  callbacks :: "(string \<times> callback list) list"
  pollingInterval :: "timer option"
  disposed :: bool
  individualIntervals :: "timer list"
  cleanupListeners :: "nat list"
  localStorage :: local_storage
  has_window :: bool
  next_id :: nat
  timers :: "timer list"
  clearInterval_log :: "timer list"
  window_listeners :: "nat list"
  nativeWatchers :: "(watcher \<times> string) list"
  fs_watch_log :: "string list"

text \<open>
  The objects with a \<open>close\<close> method that the two registration functions return, one
  constructor per object literal of the source:
  \<^item> \<open>Fallback_handle\<close>: \<open>safeWatch\<close> when fallback mode is already on;
  \<^item> \<open>Native_handle\<close>: \<open>safeWatch\<close> after a native watcher was created (it holds that
    watcher and whether its \<open>close()\<close> throws);
  \<^item> \<open>Catch_handle\<close>: \<open>safeWatch\<close> in the \<open>catch\<close> branch, after the native attempt failed;
  \<^item> \<open>Interval_handle\<close>: \<open>safeWatchPaths\<close> in either polling branch;
  \<^item> \<open>WatchPaths_handle\<close>: whatever the native \<open>watchPaths\<close> returned.
\<close>

datatype handle =
    Fallback_handle string callback
  | Native_handle watcher bool string callback
  | Catch_handle string callback
  | Interval_handle timer
  | WatchPaths_handle

section \<open>File watcher: operations\<close>

definition fallback_key :: string where
  "fallback_key = ''bolt-file-watcher-fallback''"

text \<open>
  \<open>tryLoadFallbackState\<close> and \<open>saveFallbackState\<close>: both test
  \<open>typeof localStorage !== 'undefined'\<close> inside a \<open>try\<close> whose \<open>catch\<close> only warns.
\<close>

definition tryLoadFallbackState :: "local_storage \<Rightarrow> bool" where
  "tryLoadFallbackState ls =
     (case ls of
        Undefined \<Rightarrow> False
      | Throwing \<Rightarrow> False
      | Storage m \<Rightarrow> m fallback_key = Some ''true'')"

definition saveFallbackState :: "bool \<Rightarrow> local_storage \<Rightarrow> local_storage" where
  "saveFallbackState state ls =
     (case ls of
        Undefined \<Rightarrow> Undefined
      | Throwing \<Rightarrow> Throwing
      | Storage m \<Rightarrow> Storage (m(fallback_key \<mapsto> (if state then ''true'' else ''false''))))"

text \<open>The state when the module is loaded in a host with the given storage and window.\<close>

definition initial_world :: "local_storage \<Rightarrow> bool \<Rightarrow> watcher_world" where
  "initial_world ls win =
     \<lparr>fallbackEnabled = tryLoadFallbackState ls, watchingPaths = {}, callbacks = [],
      pollingInterval = None, disposed = False, individualIntervals = [],
      cleanupListeners = [], localStorage = ls, has_window = win, next_id = 1, timers = [],
      clearInterval_log = [], window_listeners = [], nativeWatchers = [], fs_watch_log = []\<rparr>"

text \<open>
  \<open>if (!callbacks.has(pattern)) callbacks.set(pattern, new Set()); callbacks.get(pattern).add(callback)\<close>
\<close>

definition register_callback ::
  "string \<Rightarrow> callback \<Rightarrow> (string \<times> callback list) list \<Rightarrow> (string \<times> callback list) list" where
  "register_callback pattern cb cbs =
     (let cbs1 = (if map_of cbs pattern = None then cbs @ [(pattern, [])] else cbs)
      in map (\<lambda>(p, s). if p = pattern then (p, if cb \<in> set s then s else s @ [cb]) else (p, s)) cbs1)"

text \<open>
  The body shared by the three \<open>close\<close> methods of \<open>safeWatch\<close>: if the pattern has a set,
  delete the callback from it, and delete the pattern when the set is then empty.
\<close>

definition remove_callback ::
  "string \<Rightarrow> callback \<Rightarrow> (string \<times> callback list) list \<Rightarrow> (string \<times> callback list) list" where
  "remove_callback pattern cb cbs =
     (case map_of cbs pattern of
        None \<Rightarrow> cbs
      | Some s \<Rightarrow>
          if removeAll cb s = [] then filter (\<lambda>(p, s). p \<noteq> pattern) cbs
          else map (\<lambda>(p, s). if p = pattern then (p, removeAll cb s) else (p, s)) cbs)"

definition setInterval :: "watcher_world \<Rightarrow> timer \<times> watcher_world" where
  "setInterval w = (next_id w, w\<lparr>timers := timers w @ [next_id w], next_id := Suc (next_id w)\<rparr>)"

definition clearInterval :: "timer \<Rightarrow> watcher_world \<Rightarrow> watcher_world" where
  "clearInterval t w =
     w\<lparr>timers := removeAll t (timers w), clearInterval_log := clearInterval_log w @ [t]\<rparr>"

definition stopPolling :: "watcher_world \<Rightarrow> watcher_world" where
  "stopPolling w =
     (case pollingInterval w of
        None \<Rightarrow> w
      | Some t \<Rightarrow> (clearInterval t w)\<lparr>pollingInterval := None\<rparr>)"

text \<open>
  \<open>ensurePollingActive\<close>: nothing when the timer runs or the watcher is disposed; otherwise
  start the shared timer and, where \<open>window\<close> exists, register a fresh cleanup listener.
\<close>

definition ensurePollingActive :: "watcher_world \<Rightarrow> watcher_world" where
  "ensurePollingActive w =
     (if pollingInterval w \<noteq> None \<or> disposed w then w
      else
        let (t, w1) = setInterval w;
            w2 = w1\<lparr>pollingInterval := Some t\<rparr>
        in if has_window w2
           then w2\<lparr>cleanupListeners := cleanupListeners w2 @ [next_id w2],
                   window_listeners := window_listeners w2 @ [next_id w2],
                   next_id := Suc (next_id w2)\<rparr>
           else w2)"

text \<open>
  \<open>safeWatch\<close>. The \<open>throw\<close> on a disposed watcher is the \<open>Inl\<close> result. The callback is
  registered before the mode is looked at. In native mode the call to \<open>fs.watch\<close> is logged;
  when it resolves, the new watcher is recorded with its pattern, and when it rejects the
  \<open>catch\<close> branch turns fallback mode on, saves it and starts polling.
\<close>

definition safeWatch ::
  "fs_watch_result \<Rightarrow> string \<Rightarrow> callback \<Rightarrow> watcher_world \<Rightarrow> js_error + handle \<times> watcher_world" where
  "safeWatch webcontainer pattern cb w =
     (if disposed w then Inl (Error ''Cannot watch files with disposed file watcher'')
      else
        let w1 = w\<lparr>callbacks := register_callback pattern cb (callbacks w)\<rparr>
        in if fallbackEnabled w1 then Inr (Fallback_handle pattern cb, ensurePollingActive w1)
           else
             let w2 = w1\<lparr>fs_watch_log := fs_watch_log w1 @ [pattern]\<rparr>
             in case webcontainer of
                  Watch_resolves thr \<Rightarrow>
                    Inr (Native_handle (next_id w2) thr pattern cb,
                         w2\<lparr>nativeWatchers := nativeWatchers w2 @ [(next_id w2, pattern)],
                            next_id := Suc (next_id w2),
                            watchingPaths := insert pattern (watchingPaths w2)\<rparr>)
                | Watch_rejects \<Rightarrow>
                    let w3 = w2\<lparr>fallbackEnabled := True\<rparr>;
                        w4 = w3\<lparr>localStorage := saveFallbackState True (localStorage w3)\<rparr>
                    in Inr (Catch_handle pattern cb, ensurePollingActive w4))"

text \<open>
  The \<open>close\<close> methods. Only the one of the \<open>catch\<close> branch stops polling when no pattern
  is left. The native one runs inside a \<open>try\<close>: when \<open>watcher.close()\<close> throws, the rest of
  the body is skipped.
\<close>

fun close :: "handle \<Rightarrow> watcher_world \<Rightarrow> watcher_world" where
  "close (Fallback_handle pattern cb) w =
     w\<lparr>callbacks := remove_callback pattern cb (callbacks w)\<rparr>"
| "close (Native_handle wid thr pattern cb) w =
     (if thr then w
      else w\<lparr>nativeWatchers := filter (\<lambda>(i, p). i \<noteq> wid) (nativeWatchers w),
             watchingPaths := watchingPaths w - {pattern},
             callbacks := remove_callback pattern cb (callbacks w)\<rparr>)"
| "close (Catch_handle pattern cb) w =
     (let w1 = w\<lparr>callbacks := remove_callback pattern cb (callbacks w)\<rparr>
      in if length (callbacks w1) = 0 then stopPolling w1 else w1)"
| "close (Interval_handle t) w =
     (clearInterval t w)\<lparr>individualIntervals := removeAll t (individualIntervals w)\<rparr>"
| "close WatchPaths_handle w = w"

text \<open>
  The tail common to both polling branches of \<open>safeWatchPaths\<close>: an interval of its own
  for this subscription, tracked in \<open>individualIntervals\<close>.
\<close>

definition start_individual_interval :: "watcher_world \<Rightarrow> handle \<times> watcher_world" where
  "start_individual_interval w =
     (let (t, w1) = setInterval w
      in (Interval_handle t, w1\<lparr>individualIntervals := individualIntervals w1 @ [t]\<rparr>))"

text \<open>
  \<open>safeWatchPaths\<close> (its \<open>config\<close> only reaches the native call and is left out). There is
  no test of \<open>disposed\<close> in it, and no \<open>throw\<close>: it never returns \<open>Inl\<close>.
\<close>

definition safeWatchPaths ::
  "watchPaths_result \<Rightarrow> callback \<Rightarrow> watcher_world \<Rightarrow> js_error + handle \<times> watcher_world" where
  "safeWatchPaths webcontainer cb w =
     (if fallbackEnabled w then Inr (start_individual_interval (ensurePollingActive w))
      else
        case webcontainer of
          WatchPaths_returns \<Rightarrow> Inr (WatchPaths_handle, w)
        | WatchPaths_throws \<Rightarrow>
            let w1 = w\<lparr>fallbackEnabled := True\<rparr>;
                w2 = w1\<lparr>localStorage := saveFallbackState True (localStorage w1)\<rparr>
            in Inr (start_individual_interval (ensurePollingActive w2)))"

definition disposeFileWatcher :: "watcher_world \<Rightarrow> watcher_world" where
  "disposeFileWatcher w =
     (if disposed w then w
      else
        let w1 = w\<lparr>disposed := True\<rparr>;
            w2 = stopPolling w1;
            w3 = fold clearInterval (individualIntervals w2) w2;
            w4 = w3\<lparr>individualIntervals := []\<rparr>;
            w5 = w4\<lparr>callbacks := [], watchingPaths := {}\<rparr>;
            w6 = (if has_window w5
                  then w5\<lparr>window_listeners :=
                             filter (\<lambda>l. l \<notin> set (cleanupListeners w5)) (window_listeners w5)\<rparr>
                  else w5)
        in w6\<lparr>cleanupListeners := []\<rparr>)"

text \<open>
  One firing of the shared poll timer: the callbacks it invokes, in order, and the state
  after it. One \<open>change\<close> event of a native watcher: the callbacks its listener invokes,
  looked up under the pattern the listener was created for.
\<close>

definition poll_tick :: "watcher_world \<Rightarrow> callback list \<times> watcher_world" where
  "poll_tick w =
     (if disposed w then ([], stopPolling w)
      else (concat (map snd (callbacks w)), w))"

definition native_change :: "watcher \<Rightarrow> watcher_world \<Rightarrow> callback list" where
  "native_change wid w =
     (case map_of (nativeWatchers w) wid of
        None \<Rightarrow> []
      | Some pattern \<Rightarrow>
          (case map_of (callbacks w) pattern of None \<Rightarrow> [] | Some cbs \<Rightarrow> cbs))"

text \<open>
  The watcher as a state machine: the calls a client or the host can make, and a run of
  them. A registration that throws leaves the state as it was.
\<close>

datatype event =
    SafeWatch fs_watch_result string callback
  | SafeWatchPaths watchPaths_result callback
  | Close handle
  | Dispose
  | PollTick

fun step :: "event \<Rightarrow> watcher_world \<Rightarrow> watcher_world" where
  "step (SafeWatch r pattern cb) w =
     (case safeWatch r pattern cb w of Inl e \<Rightarrow> w | Inr (h, w') \<Rightarrow> w')"
| "step (SafeWatchPaths r cb) w =
     (case safeWatchPaths r cb w of Inl e \<Rightarrow> w | Inr (h, w') \<Rightarrow> w')"
| "step (Close h) w = close h w"
| "step Dispose w = disposeFileWatcher w"
| "step PollTick w = (if pollingInterval w = None then w else snd (poll_tick w))"

definition run :: "event list \<Rightarrow> watcher_world \<Rightarrow> watcher_world" where
  "run evs w = fold step evs w"

text \<open>
  The invariant of the specification: the shared poll timer runs exactly when fallback
  mode is on and some pattern has a callback.
\<close>

definition poll_invariant :: "watcher_world \<Rightarrow> bool" where
  "poll_invariant w = ((pollingInterval w \<noteq> None) = (fallbackEnabled w \<and> callbacks w \<noteq> []))"

text \<open>Native watcher handles in use are below the next fresh one.\<close>

definition fresh_ids :: "watcher_world \<Rightarrow> bool" where
  "fresh_ids w = list_all (\<lambda>(i, p). i < next_id w) (nativeWatchers w)"

text \<open>Concrete hosts and states for the examples.\<close>

definition persisted_storage :: local_storage where
  "persisted_storage = Storage [fallback_key \<mapsto> ''true'']"

definition empty_storage :: local_storage where
  "empty_storage = Storage Map.empty"

definition w_native :: watcher_world where
  "w_native = initial_world empty_storage True"

definition w_fallen :: watcher_world where
  "w_fallen = step (SafeWatch Watch_rejects ''src/a'' 1) w_native"

definition w_busy :: watcher_world where
  "w_busy =
     run [SafeWatch Watch_rejects ''src/a'' 1, SafeWatchPaths WatchPaths_throws 2,
          SafeWatchPaths WatchPaths_throws 3]
       (initial_world empty_storage True)"

section \<open>Terminal store\<close>

text \<open>
  How an awaited promise ends. A \<open>WebContainerProcess\<close> is modelled by its identity, its
  \<open>killed\<close> flag and what \<open>kill()\<close> does; the bolt terminal by what its optional
  \<open>dispose\<close> method does.
\<close>

datatype settle = Resolves | Rejects | Never_settles

record WebContainerProcess =
  pid :: nat
  killed :: bool
  kill :: settle

datatype bolt_dispose = No_dispose_method | Dispose_method settle

text \<open>
  The private fields of \<open>TerminalStore\<close> (\<open>#disposed\<close> is \<open>store_disposed\<close>), with the log
  of \<open>kill()\<close> calls, the number of calls of the bolt terminal's \<open>dispose\<close>, and the
  warnings written by the \<open>catch\<close> blocks.
\<close>

record TerminalStore =
  terminals :: "(nat \<times> WebContainerProcess) list"
  boltTerminal :: bolt_dispose
  store_disposed :: bool
  kill_log :: "nat list"
  boltTerminal_dispose_calls :: nat
  console_warn :: "string list"

text \<open>
  The async arrow of \<open>detachAllTerminals\<close> on one record: a rejected \<open>kill()\<close> is caught,
  so the arrow's promise resolves; it stays pending only when \<open>kill()\<close> never settles.
\<close>

definition terminate :: "WebContainerProcess \<Rightarrow> settle" where
  "terminate process =
     (if \<not> killed process
      then (case kill process of
              Resolves \<Rightarrow> Resolves
            | Rejects \<Rightarrow> Resolves
            | Never_settles \<Rightarrow> Never_settles)
      else Resolves)"

definition kill_warnings :: "WebContainerProcess list \<Rightarrow> string list" where
  "kill_warnings ps =
     map (\<lambda>p. ''Error killing terminal process:'')
       (filter (\<lambda>p. \<not> killed p \<and> kill p = Rejects) ps)"

text \<open>\<open>Promise.allSettled\<close> never rejects; it resolves once every promise has settled.\<close>

definition allSettled :: "settle list \<Rightarrow> settle" where
  "allSettled ps = (if Never_settles \<in> set ps then Never_settles else Resolves)"

text \<open>
  \<open>detachAllTerminals\<close>: \<open>map\<close> starts every arrow, so \<open>kill()\<close> is called on each process
  that is not killed, in order; the array is emptied after \<open>allSettled\<close>. The result is
  \<open>None\<close> when the call never completes.
\<close>

definition detachAllTerminals :: "TerminalStore \<Rightarrow> TerminalStore option" where
  "detachAllTerminals this =
     (let processes = map snd (terminals this);
          terminalPromises = map terminate processes;
          this1 = this\<lparr>kill_log := kill_log this @ map pid (filter (\<lambda>p. \<not> killed p) processes),
                       console_warn := console_warn this @ kill_warnings processes\<rparr>
      in case allSettled terminalPromises of
           Never_settles \<Rightarrow> None
         | _ \<Rightarrow> Some (this1\<lparr>terminals := []\<rparr>))"

definition dispose :: "TerminalStore \<Rightarrow> TerminalStore option" where
  "dispose this =
     (if store_disposed this then Some this
      else
        case detachAllTerminals (this\<lparr>store_disposed := True\<rparr>) of
          None \<Rightarrow> None
        | Some this1 \<Rightarrow>
            (case boltTerminal this1 of
               No_dispose_method \<Rightarrow> Some this1
             | Dispose_method r \<Rightarrow>
                 let this2 = this1\<lparr>boltTerminal_dispose_calls := Suc (boltTerminal_dispose_calls this1)\<rparr>
                 in (case r of
                       Resolves \<Rightarrow> Some this2
                     | Rejects \<Rightarrow>
                         Some (this2\<lparr>console_warn := console_warn this2 @ [''Error disposing bolt terminal:'']\<rparr>)
                     | Never_settles \<Rightarrow> None)))"

text \<open>A store with three live terminals; killing the second one fails.\<close>

definition three_terminals :: TerminalStore where
  "three_terminals =
     \<lparr>terminals =
        [(1, \<lparr>pid = 11, killed = False, kill = Resolves\<rparr>),
         (2, \<lparr>pid = 12, killed = False, kill = Rejects\<rparr>),
         (3, \<lparr>pid = 13, killed = False, kill = Resolves\<rparr>)],
      boltTerminal = Dispose_method Resolves, store_disposed = False, kill_log = [],
      boltTerminal_dispose_calls = 0, console_warn = []\<rparr>"

text \<open>A store where the second terminal's \<open>kill()\<close> never settles; the third is already killed.\<close>

definition hanging_terminals :: TerminalStore where
  "hanging_terminals =
     \<lparr>terminals =
        [(1, \<lparr>pid = 11, killed = False, kill = Resolves\<rparr>),
         (2, \<lparr>pid = 12, killed = False, kill = Never_settles\<rparr>),
         (3, \<lparr>pid = 13, killed = True, kill = Never_settles\<rparr>)],
      boltTerminal = No_dispose_method, store_disposed = False, kill_log = [],
      boltTerminal_dispose_calls = 0, console_warn = []\<rparr>"

section \<open>Memory monitor: properties\<close>

lemma Math_max_eq_Max: "Math_max x xs = Max (set (x # xs))"
  unfolding Math_max_def by (rule Max.set_eq_fold [symmetric])

subsection \<open>The two folds of \<open>calculateTrend\<close> are sums\<close>











lemma Math_max_image: "Math_max (heapUsed b) (map heapUsed ms) = Max (heapUsed ` set (b # ms))"
  by (simp add: Math_max_eq_Max)

subsection \<open>Claims about the report\<close>

text \<open>
  Claim C10. For the empty measurement log (nothing recorded, or after \<open>clear\<close>) the report
  is the fixed one: baseline, current, peak, growth and average growth rate are zero, no
  leak is detected and the efficiency is one.
\<close>

theorem getReport_empty:
  "getReport [] =
     \<lparr>baseline = 0, current = 0, peak = 0, growth = 0, report_measurements = [],
      leakDetected = False, averageGrowthRate = 0, memoryEfficiency = 1\<rparr>
   \<and> monitor_getReport (clear this) = getReport []
   \<and> monitor_getReport (this\<lparr>measurements := []\<rparr>) = getReport []"
  by (simp add: monitor_getReport_def clear_def)

text \<open>
  Claim C2. A log with fewer than ten samples never reports a leak, whatever the samples
  hold: both \<open>detectLeak\<close> and the \<open>leakDetected\<close> field of the report are false.
\<close>

theorem detectLeak_short_log:
  assumes "length ms < 10"
  shows "\<not> detectLeak ms \<and> \<not> leakDetected (getReport ms)"
  using assms by (cases ms) (simp_all add: detectLeak_def Let_def)

theorem detectLeak_short_log_witness:
  "length [sample 0, sample 4194304, sample 8388608] < 10
   \<and> \<not> detectLeak [sample 0, sample 4194304, sample 8388608]
   \<and> \<not> leakDetected (getReport [sample 0, sample 4194304, sample 8388608])"
  using detectLeak_short_log [of "[sample 0, sample 4194304, sample 8388608]"]
  by (simp add: Let_def)



text \<open>
  Claim C3. On a non-empty log the report has baseline = \<open>heapUsed\<close> of the first sample,
  current = \<open>heapUsed\<close> of the last one and peak = the maximum \<open>heapUsed\<close> of the log; the
  efficiency is 1 when peak = baseline, and otherwise
  \<open>1 - (current - baseline) / (peak - baseline)\<close> clamped to the unit interval. With
  baseline 10 MiB and peak 50 MiB, a current value of 10, 50 or 30 MiB gives 1, 0 or 1/2.
\<close>

theorem memoryEfficiency_formula:
  assumes "ms \<noteq> []"
  shows "baseline (getReport ms) = heapUsed (hd ms)
     \<and> current (getReport ms) = heapUsed (last ms)
     \<and> peak (getReport ms) = Max (heapUsed ` set ms)
     \<and> memoryEfficiency (getReport ms) =
         (if peak (getReport ms) = baseline (getReport ms) then 1
          else max 0 (min 1 (1 - (current (getReport ms) - baseline (getReport ms))
                                  / (peak (getReport ms) - baseline (getReport ms)))))
     \<and> (baseline (getReport ms) = 10 * 1048576 \<and> peak (getReport ms) = 50 * 1048576 \<longrightarrow>
          (current (getReport ms) = 10 * 1048576 \<longrightarrow> memoryEfficiency (getReport ms) = 1)
        \<and> (current (getReport ms) = 50 * 1048576 \<longrightarrow> memoryEfficiency (getReport ms) = 0)
        \<and> (current (getReport ms) = 30 * 1048576 \<longrightarrow> memoryEfficiency (getReport ms) = 1 / 2))"
proof -
  obtain b rest where ms: "ms = b # rest"
    using assms by (cases ms) auto
  have bl: "baseline (getReport ms) = heapUsed (hd ms)"
    and cur: "current (getReport ms) = heapUsed (last ms)"
    and pk: "peak (getReport ms) = Max (heapUsed ` set ms)"
    by (simp_all add: ms Let_def Math_max_image)
  have eff: "memoryEfficiency (getReport ms) =
         (if peak (getReport ms) = baseline (getReport ms) then 1
          else max 0 (min 1 (1 - (current (getReport ms) - baseline (getReport ms))
                                  / (peak (getReport ms) - baseline (getReport ms)))))"
  proof (cases rest)
    case Nil
    then show ?thesis by (simp add: ms Let_def Math_max_def)
  next
    case (Cons m rest')
    then show ?thesis by (simp add: ms Let_def Math_max_def)
  qed
  have "baseline (getReport ms) = 10 * 1048576 \<and> peak (getReport ms) = 50 * 1048576 \<longrightarrow>
          (current (getReport ms) = 10 * 1048576 \<longrightarrow> memoryEfficiency (getReport ms) = 1)
        \<and> (current (getReport ms) = 50 * 1048576 \<longrightarrow> memoryEfficiency (getReport ms) = 0)
        \<and> (current (getReport ms) = 30 * 1048576 \<longrightarrow> memoryEfficiency (getReport ms) = 1 / 2)"
    by (simp add: eff)
  with bl cur pk eff show ?thesis by blast
qed

text \<open>The three boundary logs: back at the baseline, still at the peak, and half way.\<close>

theorem memoryEfficiency_formula_witness:
  "[sample 10485760, sample 52428800, sample 10485760] \<noteq> []
   \<and> memoryEfficiency (getReport [sample 10485760, sample 52428800, sample 10485760]) = 1
   \<and> memoryEfficiency (getReport [sample 10485760, sample 52428800]) = 0
   \<and> memoryEfficiency (getReport [sample 10485760, sample 52428800, sample 31457280]) = 1 / 2"
  using memoryEfficiency_formula [of "[sample 10485760, sample 52428800, sample 10485760]"]
    memoryEfficiency_formula [of "[sample 10485760, sample 52428800]"]
    memoryEfficiency_formula [of "[sample 10485760, sample 52428800, sample 31457280]"]
  by (simp add: sample_def Let_def Math_max_def)

section \<open>File watcher: properties\<close>

subsection \<open>Fields left alone by the timer helpers\<close>

lemma clearInterval_fields [simp]:
  "fallbackEnabled (clearInterval t w) = fallbackEnabled w"
  "disposed (clearInterval t w) = disposed w"
  "callbacks (clearInterval t w) = callbacks w"
  "pollingInterval (clearInterval t w) = pollingInterval w"
  "individualIntervals (clearInterval t w) = individualIntervals w"
  "cleanupListeners (clearInterval t w) = cleanupListeners w"
  "has_window (clearInterval t w) = has_window w"
  "window_listeners (clearInterval t w) = window_listeners w"
  "watchingPaths (clearInterval t w) = watchingPaths w"
  "nativeWatchers (clearInterval t w) = nativeWatchers w"
  "next_id (clearInterval t w) = next_id w"
  "localStorage (clearInterval t w) = localStorage w"
  "fs_watch_log (clearInterval t w) = fs_watch_log w"
  "clearInterval_log (clearInterval t w) = clearInterval_log w @ [t]"
  by (simp_all add: clearInterval_def)

lemma fold_clearInterval_fields [simp]:
  "fallbackEnabled (fold clearInterval ts w) = fallbackEnabled w"
  "disposed (fold clearInterval ts w) = disposed w"
  "callbacks (fold clearInterval ts w) = callbacks w"
  "pollingInterval (fold clearInterval ts w) = pollingInterval w"
  "individualIntervals (fold clearInterval ts w) = individualIntervals w"
  "cleanupListeners (fold clearInterval ts w) = cleanupListeners w"
  "has_window (fold clearInterval ts w) = has_window w"
  "window_listeners (fold clearInterval ts w) = window_listeners w"
  "nativeWatchers (fold clearInterval ts w) = nativeWatchers w"
  "next_id (fold clearInterval ts w) = next_id w"
  "clearInterval_log (fold clearInterval ts w) = clearInterval_log w @ ts"
  by (induction ts arbitrary: w) simp_all

lemma stopPolling_fields [simp]:
  "fallbackEnabled (stopPolling w) = fallbackEnabled w"
  "disposed (stopPolling w) = disposed w"
  "callbacks (stopPolling w) = callbacks w"
  "pollingInterval (stopPolling w) = None"
  "individualIntervals (stopPolling w) = individualIntervals w"
  "cleanupListeners (stopPolling w) = cleanupListeners w"
  "has_window (stopPolling w) = has_window w"
  "window_listeners (stopPolling w) = window_listeners w"
  "nativeWatchers (stopPolling w) = nativeWatchers w"
  "next_id (stopPolling w) = next_id w"
  "clearInterval_log (stopPolling w) =
     clearInterval_log w @ (case pollingInterval w of None \<Rightarrow> [] | Some t \<Rightarrow> [t])"
  by (simp_all add: stopPolling_def split: option.splits)

lemma ensurePollingActive_fields [simp]:
  "fallbackEnabled (ensurePollingActive w) = fallbackEnabled w"
  "disposed (ensurePollingActive w) = disposed w"
  "callbacks (ensurePollingActive w) = callbacks w"
  "nativeWatchers (ensurePollingActive w) = nativeWatchers w"
  "fs_watch_log (ensurePollingActive w) = fs_watch_log w"
  "localStorage (ensurePollingActive w) = localStorage w"
  "individualIntervals (ensurePollingActive w) = individualIntervals w"
  by (simp_all add: ensurePollingActive_def setInterval_def Let_def)

lemma ensurePollingActive_running:
  "\<not> disposed w \<Longrightarrow> pollingInterval (ensurePollingActive w) \<noteq> None"
  by (auto simp: ensurePollingActive_def setInterval_def Let_def)

lemma next_id_ensurePollingActive: "next_id w \<le> next_id (ensurePollingActive w)"
  by (simp add: ensurePollingActive_def setInterval_def Let_def)

lemma start_individual_interval_fields [simp]:
  "fallbackEnabled (snd (start_individual_interval w)) = fallbackEnabled w"
  "disposed (snd (start_individual_interval w)) = disposed w"
  "nativeWatchers (snd (start_individual_interval w)) = nativeWatchers w"
  "next_id (snd (start_individual_interval w)) = Suc (next_id w)"
  "fst (start_individual_interval w) = Interval_handle (next_id w)"
  by (simp_all add: start_individual_interval_def setInterval_def Let_def)

subsection \<open>The callback table\<close>

lemma map_of_update_entry:
  "map_of (map (\<lambda>(p, s). if p = pattern then (p, f s) else (p, s)) xs) pattern
     = map_option f (map_of xs pattern)"
  by (induction xs) auto

lemma map_of_drop_entry:
  "map_of (filter (\<lambda>(p, s). p \<noteq> pattern) xs) pattern = None"
  by (induction xs) auto

lemma map_of_register_callback_fresh:
  assumes "map_of cbs pattern = None"
  shows "map_of (register_callback pattern cb cbs) pattern = Some [cb]"
proof -
  have "map_of (cbs @ [(pattern, [])]) pattern = Some []"
    using assms by (simp add: map_of_append map_add_def)
  then show ?thesis
    using assms by (simp add: register_callback_def map_of_update_entry del: map_append)
qed

lemma map_of_register_callback_known:
  assumes "map_of cbs pattern = Some s"
  shows "map_of (register_callback pattern cb cbs) pattern
           = Some (if cb \<in> set s then s else s @ [cb])"
  using assms by (simp add: register_callback_def map_of_update_entry)

lemma map_of_remove_callback:
  "map_of (remove_callback pattern cb cbs) pattern =
     (case map_of cbs pattern of
        None \<Rightarrow> None
      | Some s \<Rightarrow> if removeAll cb s = [] then None else Some (removeAll cb s))"
  by (cases "map_of cbs pattern")
    (simp_all add: remove_callback_def map_of_update_entry map_of_drop_entry)

subsection \<open>The operations on their branches\<close>

lemma close_fields [simp]:
  "fallbackEnabled (close h w) = fallbackEnabled w"
  "disposed (close h w) = disposed w"
  "next_id (close h w) = next_id w"
  by (cases h; simp add: Let_def)+

lemma disposeFileWatcher_fields [simp]:
  "fallbackEnabled (disposeFileWatcher w) = fallbackEnabled w"
  "disposed (disposeFileWatcher w)"
  "next_id (disposeFileWatcher w) = next_id w"
  "nativeWatchers (disposeFileWatcher w) = nativeWatchers w"
  by (simp_all add: disposeFileWatcher_def Let_def)

lemma disposeFileWatcher_disposed: "disposed w \<Longrightarrow> disposeFileWatcher w = w"
  by (simp add: disposeFileWatcher_def)

lemma disposeFileWatcher_releases:
  "\<not> disposed w \<Longrightarrow>
   clearInterval_log (disposeFileWatcher w) =
     clearInterval_log w @ (case pollingInterval w of None \<Rightarrow> [] | Some t \<Rightarrow> [t])
       @ individualIntervals w"
  by (simp add: disposeFileWatcher_def Let_def)

lemma safeWatch_disposed:
  "disposed w \<Longrightarrow> safeWatch r pattern cb w = Inl (Error ''Cannot watch files with disposed file watcher'')"
  by (simp add: safeWatch_def)

lemma safeWatch_fallback:
  "\<not> disposed w \<Longrightarrow> fallbackEnabled w \<Longrightarrow>
   safeWatch r pattern cb w =
     Inr (Fallback_handle pattern cb,
          ensurePollingActive (w\<lparr>callbacks := register_callback pattern cb (callbacks w)\<rparr>))"
  by (simp add: safeWatch_def Let_def)

lemma safeWatch_rejects:
  "\<not> disposed w \<Longrightarrow> \<not> fallbackEnabled w \<Longrightarrow>
   safeWatch Watch_rejects pattern cb w =
     Inr (Catch_handle pattern cb,
          ensurePollingActive
            (w\<lparr>callbacks := register_callback pattern cb (callbacks w),
               fs_watch_log := fs_watch_log w @ [pattern],
               fallbackEnabled := True,
               localStorage := saveFallbackState True (localStorage w)\<rparr>))"
  by (simp add: safeWatch_def Let_def)

lemma safeWatch_resolves:
  "\<not> disposed w \<Longrightarrow> \<not> fallbackEnabled w \<Longrightarrow>
   safeWatch (Watch_resolves thr) pattern cb w =
     Inr (Native_handle (next_id w) thr pattern cb,
          w\<lparr>callbacks := register_callback pattern cb (callbacks w),
            fs_watch_log := fs_watch_log w @ [pattern],
            nativeWatchers := nativeWatchers w @ [(next_id w, pattern)],
            next_id := Suc (next_id w),
            watchingPaths := insert pattern (watchingPaths w)\<rparr>)"
  by (simp add: safeWatch_def Let_def)

lemma step_keeps_fallback: "fallbackEnabled w \<Longrightarrow> fallbackEnabled (step ev w)"
proof (cases ev)
  case (SafeWatch r pattern cb)
  then show "fallbackEnabled w \<Longrightarrow> ?thesis"
    by (cases "disposed w") (simp_all add: safeWatch_disposed safeWatch_fallback)
next
  case (SafeWatchPaths r cb)
  then show "fallbackEnabled w \<Longrightarrow> ?thesis"
    by (simp add: safeWatchPaths_def split_beta)
next
  case PollTick
  then show "fallbackEnabled w \<Longrightarrow> ?thesis"
    by (simp add: poll_tick_def)
qed simp_all

lemma run_keeps_fallback: "fallbackEnabled w \<Longrightarrow> fallbackEnabled (run evs w)"
  unfolding run_def by (induction evs arbitrary: w) (simp_all add: step_keeps_fallback)

lemma saveFallbackState_loads:
  "tryLoadFallbackState (saveFallbackState True (Storage m))"
  by (simp add: tryLoadFallbackState_def saveFallbackState_def)

subsection \<open>Fallback mode\<close>

text \<open>The definitions to unfold when a concrete state is evaluated.\<close>

lemmas world_eval =
  initial_world_def safeWatch_def safeWatchPaths_def ensurePollingActive_def setInterval_def
  clearInterval_def stopPolling_def start_individual_interval_def disposeFileWatcher_def
  poll_tick_def register_callback_def remove_callback_def tryLoadFallbackState_def
  saveFallbackState_def fallback_key_def persisted_storage_def empty_storage_def run_def
  poll_invariant_def native_change_def Let_def

text \<open>
  Claim C4, as amended. Fallback mode is sticky: once \<open>fallbackEnabled\<close> is set, no run of
  registrations, closes, poll ticks and disposals clears it. At the transition (a rejected
  native watch in \<open>safeWatch\<close>, a throwing native \<open>watchPaths\<close> in \<open>safeWatchPaths\<close>) the
  flag is handed to \<open>saveFallbackState\<close>, which records it when local storage is available
  and working, so that a later load reads it back. Every later \<open>safeWatch\<close> on a watcher that
  is not disposed, for any pattern, takes the polling path whatever the native primitive
  would do: the shared timer runs, and no call of \<open>fs.watch\<close> and no native watcher is
  added; \<open>safeWatchPaths\<close> polls as well. A state built from storage that holds the flag
  starts in fallback mode.
\<close>

theorem fallback_sticky:
  "(fallbackEnabled w \<longrightarrow> fallbackEnabled (run evs w))
   \<and> (\<not> disposed w \<and> \<not> fallbackEnabled w \<longrightarrow>
        (\<exists>w'. safeWatch Watch_rejects pattern cb w = Inr (Catch_handle pattern cb, w')
            \<and> fallbackEnabled w'
            \<and> localStorage w' = saveFallbackState True (localStorage w)
            \<and> (\<forall>m. localStorage w = Storage m \<longrightarrow> tryLoadFallbackState (localStorage w'))))
   \<and> (\<not> fallbackEnabled w \<longrightarrow>
        (\<exists>h w'. safeWatchPaths WatchPaths_throws cb w = Inr (h, w')
            \<and> fallbackEnabled w'
            \<and> localStorage w' = saveFallbackState True (localStorage w)
            \<and> (\<forall>m. localStorage w = Storage m \<longrightarrow> tryLoadFallbackState (localStorage w'))))
   \<and> (\<not> disposed w \<and> fallbackEnabled w \<longrightarrow>
        (\<exists>w'. safeWatch r pattern cb w = Inr (Fallback_handle pattern cb, w')
            \<and> w' = ensurePollingActive
                   (w\<lparr>callbacks := register_callback pattern cb (callbacks w)\<rparr>)
            \<and> fs_watch_log w' = fs_watch_log w
            \<and> nativeWatchers w' = nativeWatchers w
            \<and> pollingInterval w' \<noteq> None))
   \<and> (fallbackEnabled w \<longrightarrow>
        safeWatchPaths r2 cb w = Inr (start_individual_interval (ensurePollingActive w)))
   \<and> (tryLoadFallbackState ls \<longrightarrow> fallbackEnabled (initial_world ls win))"
proof -
  have sticky: "fallbackEnabled w \<longrightarrow> fallbackEnabled (run evs w)"
    by (simp add: run_keeps_fallback)
  have trans: "\<not> disposed w \<and> \<not> fallbackEnabled w \<longrightarrow>
        (\<exists>w'. safeWatch Watch_rejects pattern cb w = Inr (Catch_handle pattern cb, w')
            \<and> fallbackEnabled w'
            \<and> localStorage w' = saveFallbackState True (localStorage w)
            \<and> (\<forall>m. localStorage w = Storage m \<longrightarrow> tryLoadFallbackState (localStorage w')))"
    by (auto simp: safeWatch_rejects saveFallbackState_loads)
  have trans_paths: "\<not> fallbackEnabled w \<longrightarrow>
        (\<exists>h w'. safeWatchPaths WatchPaths_throws cb w = Inr (h, w')
            \<and> fallbackEnabled w'
            \<and> localStorage w' = saveFallbackState True (localStorage w)
            \<and> (\<forall>m. localStorage w = Storage m \<longrightarrow> tryLoadFallbackState (localStorage w')))"
    by (auto simp: safeWatchPaths_def Let_def start_individual_interval_def setInterval_def
        split_beta saveFallbackState_loads)
  have later: "\<not> disposed w \<and> fallbackEnabled w \<longrightarrow>
        (\<exists>w'. safeWatch r pattern cb w = Inr (Fallback_handle pattern cb, w')
            \<and> w' = ensurePollingActive
                   (w\<lparr>callbacks := register_callback pattern cb (callbacks w)\<rparr>)
            \<and> fs_watch_log w' = fs_watch_log w
            \<and> nativeWatchers w' = nativeWatchers w
            \<and> pollingInterval w' \<noteq> None)"
    using ensurePollingActive_running
      [of "w\<lparr>callbacks := register_callback pattern cb (callbacks w)\<rparr>"]
    by (auto simp: safeWatch_fallback)
  have later_paths: "fallbackEnabled w \<longrightarrow>
        safeWatchPaths r2 cb w = Inr (start_individual_interval (ensurePollingActive w))"
    by (simp add: safeWatchPaths_def)
  have init: "tryLoadFallbackState ls \<longrightarrow> fallbackEnabled (initial_world ls win)"
    by (simp add: initial_world_def)
  from sticky trans trans_paths later later_paths init show ?thesis by blast
qed

text \<open>
  A host with working storage: the first registration fails natively; the next one, for a
  pattern never tried, polls without a native attempt, and the flag survives a whole run.
\<close>

theorem fallback_sticky_witness:
  "\<not> disposed w_native \<and> \<not> fallbackEnabled w_native
   \<and> fallbackEnabled w_fallen \<and> \<not> disposed w_fallen
   \<and> tryLoadFallbackState (localStorage w_fallen)
   \<and> fallbackEnabled (initial_world (localStorage w_fallen) True)
   \<and> fs_watch_log w_fallen = [''src/a'']
   \<and> fs_watch_log (step (SafeWatch (Watch_resolves False) ''src/b'' 2) w_fallen) = [''src/a'']
   \<and> fallbackEnabled
        (run [SafeWatch (Watch_resolves False) ''src/b'' 2, Close (Fallback_handle ''src/b'' 2),
              Close (Catch_handle ''src/a'' 1), PollTick, Dispose] w_fallen)"
  using fallback_sticky [where w = w_native and evs = "[]" and pattern = "''src/a''" and cb = 1
      and r = Watch_rejects and ls = empty_storage and win = True]
    fallback_sticky [where w = w_fallen
      and evs = "[SafeWatch (Watch_resolves False) ''src/b'' 2, Close (Fallback_handle ''src/b'' 2),
        Close (Catch_handle ''src/a'' 1), PollTick, Dispose]"
      and pattern = "''src/b''" and cb = 2 and r = "Watch_resolves False"
      and ls = "localStorage w_fallen" and win = True]
  by (simp add: w_native_def w_fallen_def world_eval)

text \<open>
  Claim C4 as stated fails where \<open>localStorage\<close> is not defined: the transition to fallback
  mode happens, nothing is persisted, and a state built afterwards from the same host
  starts in native mode.
\<close>

theorem fallback_not_persisted_without_localStorage:
  "\<not> fallbackEnabled (initial_world Undefined True)
   \<and> fallbackEnabled (step (SafeWatch Watch_rejects ''src/a'' 1) (initial_world Undefined True))
   \<and> localStorage (step (SafeWatch Watch_rejects ''src/a'' 1) (initial_world Undefined True))
       = Undefined
   \<and> \<not> fallbackEnabled
        (initial_world
           (localStorage (step (SafeWatch Watch_rejects ''src/a'' 1) (initial_world Undefined True)))
           True)"
  by (simp add: world_eval)

subsection \<open>The poll timer and disposed watchers\<close>

text \<open>
  Claim C5 at a concrete input. In a host whose storage holds the fallback flag, one
  callback is registered (the timer starts and the invariant holds) and its handle is
  closed: no callback is left, and the shared poll timer still runs, so the invariant is
  broken. The \<open>close\<close> of the \<open>catch\<close> branch, on the same registration after a native
  failure, stops the timer and keeps the invariant.
\<close>

theorem fallback_close_leaves_poll_timer:
  "poll_invariant (initial_world persisted_storage True)
   \<and> (case safeWatch (Watch_resolves False) ''src/a'' 1 (initial_world persisted_storage True) of
        Inl e \<Rightarrow> False
      | Inr (h, w) \<Rightarrow>
          h = Fallback_handle ''src/a'' 1 \<and> poll_invariant w \<and> pollingInterval w = Some 1
          \<and> callbacks (close h w) = [] \<and> pollingInterval (close h w) = Some 1
          \<and> timers (close h w) = [1] \<and> \<not> poll_invariant (close h w))
   \<and> (case safeWatch Watch_rejects ''src/a'' 1 (initial_world empty_storage True) of
        Inl e \<Rightarrow> False
      | Inr (h, w) \<Rightarrow>
          h = Catch_handle ''src/a'' 1 \<and> pollingInterval w = Some 1
          \<and> callbacks (close h w) = [] \<and> pollingInterval (close h w) = None
          \<and> timers (close h w) = [] \<and> poll_invariant (close h w))"
  by (simp add: world_eval)

text \<open>
  Claim C9 at a concrete input. On a disposed watcher \<open>safeWatch\<close> fails with its error,
  but \<open>safeWatchPaths\<close> returns a handle: in fallback mode it starts and tracks a new
  interval, in native mode it hands back the native watcher.
\<close>

theorem safeWatchPaths_ignores_disposed:
  "disposed (disposeFileWatcher (initial_world persisted_storage True))
   \<and> safeWatch (Watch_resolves False) ''src/a'' 1 (disposeFileWatcher (initial_world persisted_storage True))
       = Inl (Error ''Cannot watch files with disposed file watcher'')
   \<and> (case safeWatchPaths WatchPaths_returns 1 (disposeFileWatcher (initial_world persisted_storage True)) of
        Inl e \<Rightarrow> False
      | Inr (h, w) \<Rightarrow>
          h = Interval_handle 1 \<and> disposed w \<and> individualIntervals w = [1] \<and> timers w = [1])
   \<and> (case safeWatchPaths WatchPaths_returns 1 (disposeFileWatcher (initial_world empty_storage True)) of
        Inl e \<Rightarrow> False
      | Inr (h, w) \<Rightarrow> h = WatchPaths_handle \<and> disposed w)"
  by (simp add: world_eval)

subsection \<open>Two callbacks on one pattern\<close>

lemma fresh_ids_mono:
  "fresh_ids w \<Longrightarrow> nativeWatchers w' = nativeWatchers w \<Longrightarrow> next_id w \<le> next_id w' \<Longrightarrow> fresh_ids w'"
  by (auto simp: fresh_ids_def list_all_iff)

lemma fresh_ids_lookup: "fresh_ids w \<Longrightarrow> next_id w \<le> k \<Longrightarrow> map_of (nativeWatchers w) k = None"
  by (force simp: fresh_ids_def list_all_iff map_of_eq_None_iff)

lemma map_of_filter_key:
  "map_of (filter (\<lambda>(i, p). i \<noteq> a) xs) b = (if b = a then None else map_of xs b)"
  by (induction xs) auto

lemma safeWatch_fresh:
  assumes "fresh_ids w" and "safeWatch r pattern cb w = Inr (h, w')"
  shows "fresh_ids w'"
proof (cases "fallbackEnabled w")
  case True
  with assms(2) have w': "w' = ensurePollingActive (w\<lparr>callbacks := register_callback pattern cb (callbacks w)\<rparr>)"
    by (cases "disposed w") (simp_all add: safeWatch_disposed safeWatch_fallback)
  show ?thesis
    unfolding w'
    using next_id_ensurePollingActive [of "w\<lparr>callbacks := register_callback pattern cb (callbacks w)\<rparr>"]
    by (intro fresh_ids_mono [OF assms(1)]) simp_all
next
  case False
  show ?thesis
  proof (cases r)
    case Watch_rejects
    with False assms(2) have w': "w' = ensurePollingActive
            (w\<lparr>callbacks := register_callback pattern cb (callbacks w),
               fs_watch_log := fs_watch_log w @ [pattern],
               fallbackEnabled := True,
               localStorage := saveFallbackState True (localStorage w)\<rparr>)"
      by (cases "disposed w") (simp_all add: safeWatch_disposed safeWatch_rejects)
    show ?thesis
      unfolding w'
      using next_id_ensurePollingActive [of "w\<lparr>callbacks := register_callback pattern cb (callbacks w),
               fs_watch_log := fs_watch_log w @ [pattern],
               fallbackEnabled := True,
               localStorage := saveFallbackState True (localStorage w)\<rparr>"]
      by (intro fresh_ids_mono [OF assms(1)]) simp_all
  next
    case (Watch_resolves thr)
    with False assms show ?thesis
      by (cases "disposed w")
        (auto simp: safeWatch_disposed safeWatch_resolves fresh_ids_def list_all_iff less_Suc_eq)
  qed
qed

lemma step_fresh: "fresh_ids w \<Longrightarrow> fresh_ids (step ev w)"
proof (cases ev)
  case (SafeWatch r pattern cb)
  then show "fresh_ids w \<Longrightarrow> ?thesis"
    by (auto split: sum.splits dest: safeWatch_fresh)
next
  case (SafeWatchPaths r cb)
  assume f: "fresh_ids w"
  have a: "fresh_ids (snd (start_individual_interval (ensurePollingActive v)))"
    if "nativeWatchers v = nativeWatchers w" "next_id v = next_id w" for v
    using next_id_ensurePollingActive [of v] that
    by (intro fresh_ids_mono [OF f]) simp_all
  show ?thesis
    using f a [of w]
      a [of "w\<lparr>fallbackEnabled := True, localStorage := saveFallbackState True (localStorage w)\<rparr>"]
    by (simp add: SafeWatchPaths safeWatchPaths_def Let_def split_beta split: watchPaths_result.splits)
next
  case (Close h)
  then show "fresh_ids w \<Longrightarrow> ?thesis"
    by (cases h) (auto simp: fresh_ids_def list_all_iff Let_def)
next
  case Dispose
  then show "fresh_ids w \<Longrightarrow> ?thesis"
    by (simp add: fresh_ids_def)
next
  case PollTick
  then show "fresh_ids w \<Longrightarrow> ?thesis"
    by (simp add: fresh_ids_def poll_tick_def)
qed

lemma reachable_fresh: "fresh_ids (run evs (initial_world ls win))"
proof -
  have "fresh_ids w \<Longrightarrow> fresh_ids (fold step evs w)" for w
    by (induction evs arbitrary: w) (simp_all add: step_fresh)
  moreover have "fresh_ids (initial_world ls win)"
    by (simp add: fresh_ids_def initial_world_def)
  ultimately show ?thesis by (simp add: run_def)
qed

text \<open>
  Claim C6, as amended. In native mode, in a reachable state where the pattern has no
  callback yet, registering two different callbacks under the pattern creates two native
  watchers, one per registration. Closing the first handle (whose watcher closes without
  throwing) releases that registration's own watcher and removes its callback; the
  pattern entry stays with the second callback, the second watcher stays open, and a
  change event on it is delivered to the second callback. The pattern entry is removed
  when the second handle is closed and the set becomes empty.
\<close>

theorem native_two_callbacks:
  assumes reach: "w = run evs (initial_world ls win)"
    and live: "\<not> disposed w" and native: "\<not> fallbackEnabled w"
    and neq: "cb1 \<noteq> cb2" and new: "map_of (callbacks w) pattern = None"
  shows "\<exists>w1 w2.
       safeWatch (Watch_resolves False) pattern cb1 w
         = Inr (Native_handle (next_id w) False pattern cb1, w1)
     \<and> safeWatch (Watch_resolves False) pattern cb2 w1
         = Inr (Native_handle (Suc (next_id w)) False pattern cb2, w2)
     \<and> map_of (callbacks w2) pattern = Some [cb1, cb2]
     \<and> map_of (nativeWatchers w2) (next_id w) = Some pattern
     \<and> map_of (nativeWatchers w2) (Suc (next_id w)) = Some pattern
     \<and> (let w3 = close (Native_handle (next_id w) False pattern cb1) w2 in
          map_of (nativeWatchers w3) (next_id w) = None
        \<and> map_of (nativeWatchers w3) (Suc (next_id w)) = Some pattern
        \<and> map_of (callbacks w3) pattern = Some [cb2]
        \<and> native_change (Suc (next_id w)) w3 = [cb2]
        \<and> (let w4 = close (Native_handle (Suc (next_id w)) False pattern cb2) w3 in
              map_of (callbacks w4) pattern = None
            \<and> map_of (nativeWatchers w4) (Suc (next_id w)) = None))"
proof -
  define n where "n = next_id w"
  define w1 where "w1 = w\<lparr>callbacks := register_callback pattern cb1 (callbacks w),
            fs_watch_log := fs_watch_log w @ [pattern],
            nativeWatchers := nativeWatchers w @ [(n, pattern)],
            next_id := Suc n,
            watchingPaths := insert pattern (watchingPaths w)\<rparr>"
  define w2 where "w2 = w1\<lparr>callbacks := register_callback pattern cb2 (callbacks w1),
            fs_watch_log := fs_watch_log w1 @ [pattern],
            nativeWatchers := nativeWatchers w1 @ [(Suc n, pattern)],
            next_id := Suc (Suc n),
            watchingPaths := insert pattern (watchingPaths w1)\<rparr>"
  define w3 where "w3 = close (Native_handle n False pattern cb1) w2"
  define w4 where "w4 = close (Native_handle (Suc n) False pattern cb2) w3"
  have fresh: "fresh_ids w"
    unfolding reach by (rule reachable_fresh)
  have old: "map_of (nativeWatchers w) n = None" "map_of (nativeWatchers w) (Suc n) = None"
    using fresh by (simp_all add: fresh_ids_lookup n_def)
  have s1: "safeWatch (Watch_resolves False) pattern cb1 w = Inr (Native_handle n False pattern cb1, w1)"
    using live native by (simp add: safeWatch_resolves w1_def n_def)
  have s2: "safeWatch (Watch_resolves False) pattern cb2 w1 = Inr (Native_handle (Suc n) False pattern cb2, w2)"
    using live native by (simp add: safeWatch_resolves w1_def w2_def)
  have c1: "map_of (callbacks w1) pattern = Some [cb1]"
    using new by (simp add: w1_def map_of_register_callback_fresh)
  have c2: "map_of (callbacks w2) pattern = Some [cb1, cb2]"
    using neq map_of_register_callback_known [OF c1, of cb2] by (simp add: w2_def)
  have n2: "nativeWatchers w2 = nativeWatchers w @ [(n, pattern), (Suc n, pattern)]"
    by (simp add: w2_def w1_def)
  have l2: "map_of (nativeWatchers w2) n = Some pattern"
    "map_of (nativeWatchers w2) (Suc n) = Some pattern"
    using old by (simp_all add: n2 map_of_append map_add_def)
  have n3: "nativeWatchers w3 = filter (\<lambda>(i, p). i \<noteq> n) (nativeWatchers w2)"
    and cb3: "callbacks w3 = remove_callback pattern cb1 (callbacks w2)"
    by (simp_all add: w3_def)
  have l3: "map_of (nativeWatchers w3) n = None" "map_of (nativeWatchers w3) (Suc n) = Some pattern"
    using l2 by (simp_all add: n3 map_of_filter_key)
  have c3: "map_of (callbacks w3) pattern = Some [cb2]"
    using neq by (simp add: cb3 map_of_remove_callback c2)
  have ev3: "native_change (Suc n) w3 = [cb2]"
    by (simp add: native_change_def l3 c3)
  have c4: "map_of (callbacks w4) pattern = None"
    by (simp add: w4_def map_of_remove_callback c3)
  have l4: "map_of (nativeWatchers w4) (Suc n) = None"
    by (simp add: w4_def map_of_filter_key)
  show ?thesis
    using s1 s2 c2 l2 l3 c3 ev3 c4 l4
    unfolding w3_def w4_def n_def Let_def by blast
qed

text \<open>Two callbacks on one pattern in a fresh native host.\<close>

theorem native_two_callbacks_witness:
  "(case safeWatch (Watch_resolves False) ''src/a'' 1 (initial_world empty_storage True) of
      Inl e \<Rightarrow> False
    | Inr (h1, w1) \<Rightarrow>
        (case safeWatch (Watch_resolves False) ''src/a'' 2 w1 of
           Inl e \<Rightarrow> False
         | Inr (h2, w2) \<Rightarrow>
             h1 = Native_handle 1 False ''src/a'' 1 \<and> h2 = Native_handle 2 False ''src/a'' 2
             \<and> callbacks (close h1 w2) = [(''src/a'', [2])]
             \<and> nativeWatchers (close h1 w2) = [(2, ''src/a'')]
             \<and> native_change 2 (close h1 w2) = [2]
             \<and> callbacks (close h2 (close h1 w2)) = []))"
  using native_two_callbacks [of "initial_world empty_storage True" "[]" empty_storage True 1 2 "''src/a''"]
  by (simp add: world_eval)

text \<open>
  Claim C6 as stated fails on the native handle: after the first close the first watcher
  is released although the pattern's callback set still holds the second callback.
\<close>

theorem native_watcher_released_with_callbacks_left:
  "(case safeWatch (Watch_resolves False) ''src/a'' 1 (initial_world empty_storage True) of
      Inl e \<Rightarrow> False
    | Inr (h1, w1) \<Rightarrow>
        (case safeWatch (Watch_resolves False) ''src/a'' 2 w1 of
           Inl e \<Rightarrow> False
         | Inr (h2, w2) \<Rightarrow>
             nativeWatchers w2 = [(1, ''src/a''), (2, ''src/a'')]
             \<and> h1 = Native_handle 1 False ''src/a'' 1
             \<and> map_of (nativeWatchers (close h1 w2)) 1 = None
             \<and> ''src/a'' \<notin> watchingPaths (close h1 w2)
             \<and> map_of (callbacks (close h1 w2)) ''src/a'' = Some [2]))"
  by (simp add: world_eval)

section \<open>Terminal store and disposal: properties\<close>

lemma terminate_settles:
  "terminate p \<noteq> Never_settles \<longleftrightarrow> killed p \<or> kill p \<noteq> Never_settles"
  by (cases "kill p") (simp_all add: terminate_def)

lemma allSettled_terminate:
  "allSettled (map terminate (map snd (terminals this))) =
     (if \<forall>e \<in> set (terminals this). killed (snd e) \<or> kill (snd e) \<noteq> Never_settles
      then Resolves else Never_settles)"
proof (cases "\<forall>e \<in> set (terminals this). killed (snd e) \<or> kill (snd e) \<noteq> Never_settles")
  case True
  then have "terminate (snd e) \<noteq> Never_settles" if "e \<in> set (terminals this)" for e
    using that by (simp add: terminate_settles)
  then have "Never_settles \<notin> set (map terminate (map snd (terminals this)))"
    by force
  with True show ?thesis by (simp add: allSettled_def)
next
  case False
  then obtain e where e: "e \<in> set (terminals this)" "\<not> killed (snd e)" "kill (snd e) = Never_settles"
    by auto
  then have "terminate (snd e) = Never_settles"
    by (simp add: terminate_def)
  with e(1) have "Never_settles \<in> set (map terminate (map snd (terminals this)))"
    by force
  with False show ?thesis by (simp add: allSettled_def)
qed

text \<open>
  Claim C8. \<open>detachAllTerminals\<close> waits for every termination and then clears the store.
  When every termination settles (resolves or rejects) the call completes, and its result
  is the store with \<open>kill()\<close> called on every record that was not killed, in order and
  whatever the others did, one warning per rejected \<open>kill()\<close>, and no record left. When
  the \<open>kill()\<close> of some live record never settles, the call never completes. So the call
  completes exactly when every termination settles.
\<close>

theorem detachAllTerminals_settles:
  "((\<forall>e \<in> set (terminals this). killed (snd e) \<or> kill (snd e) \<noteq> Never_settles) \<longrightarrow>
      detachAllTerminals this =
        Some (this\<lparr>kill_log :=
                      kill_log this @ map pid (filter (\<lambda>p. \<not> killed p) (map snd (terminals this))),
                   console_warn := console_warn this @ kill_warnings (map snd (terminals this)),
                   terminals := []\<rparr>)
      \<and> (\<exists>this'. detachAllTerminals this = Some this'
             \<and> terminals this' = []
             \<and> kill_log this' =
                 kill_log this @ map pid (filter (\<lambda>p. \<not> killed p) (map snd (terminals this)))
             \<and> store_disposed this' = store_disposed this))
   \<and> ((\<exists>e \<in> set (terminals this). \<not> killed (snd e) \<and> kill (snd e) = Never_settles) \<longrightarrow>
        detachAllTerminals this = None)
   \<and> ((detachAllTerminals this \<noteq> None) =
        (\<forall>e \<in> set (terminals this). killed (snd e) \<or> kill (snd e) \<noteq> Never_settles))"
proof -
  have completes: "detachAllTerminals this =
        Some (this\<lparr>kill_log :=
                      kill_log this @ map pid (filter (\<lambda>p. \<not> killed p) (map snd (terminals this))),
                   console_warn := console_warn this @ kill_warnings (map snd (terminals this)),
                   terminals := []\<rparr>)"
    if "\<forall>e \<in> set (terminals this). killed (snd e) \<or> kill (snd e) \<noteq> Never_settles"
    using that allSettled_terminate [of this] by (simp add: detachAllTerminals_def Let_def)
  have hang: "detachAllTerminals this = None"
    if "\<not> (\<forall>e \<in> set (terminals this). killed (snd e) \<or> kill (snd e) \<noteq> Never_settles)"
    using that allSettled_terminate [of this] by (simp add: detachAllTerminals_def Let_def)
  have a: "(\<forall>e \<in> set (terminals this). killed (snd e) \<or> kill (snd e) \<noteq> Never_settles) \<longrightarrow>
      detachAllTerminals this =
        Some (this\<lparr>kill_log :=
                      kill_log this @ map pid (filter (\<lambda>p. \<not> killed p) (map snd (terminals this))),
                   console_warn := console_warn this @ kill_warnings (map snd (terminals this)),
                   terminals := []\<rparr>)
      \<and> (\<exists>this'. detachAllTerminals this = Some this'
             \<and> terminals this' = []
             \<and> kill_log this' =
                 kill_log this @ map pid (filter (\<lambda>p. \<not> killed p) (map snd (terminals this)))
             \<and> store_disposed this' = store_disposed this)"
    using completes by simp
  have b: "(\<exists>e \<in> set (terminals this). \<not> killed (snd e) \<and> kill (snd e) = Never_settles) \<longrightarrow>
        detachAllTerminals this = None"
    using hang by blast
  have c: "(detachAllTerminals this \<noteq> None) =
        (\<forall>e \<in> set (terminals this). killed (snd e) \<or> kill (snd e) \<noteq> Never_settles)"
    using completes hang by (cases "\<forall>e \<in> set (terminals this). killed (snd e) \<or> kill (snd e) \<noteq> Never_settles") simp_all
  from a b c show ?thesis by (intro conjI)
qed

text \<open>
  Three live terminals, the second of which fails to die: the call completes and all three
  are gone. A store with a \<open>kill()\<close> that never settles: the call does not complete.
\<close>

theorem detachAllTerminals_settles_witness:
  "(case detachAllTerminals three_terminals of
      None \<Rightarrow> False
    | Some this' \<Rightarrow>
        terminals this' = [] \<and> kill_log this' = [11, 12, 13]
        \<and> console_warn this' = [''Error killing terminal process:''])
   \<and> detachAllTerminals hanging_terminals = None"
  using detachAllTerminals_settles [of three_terminals]
    detachAllTerminals_settles [of hanging_terminals]
  by (auto simp: three_terminals_def hanging_terminals_def kill_warnings_def)

lemma detachAllTerminals_flag:
  "detachAllTerminals this = Some this' \<Longrightarrow> store_disposed this' = store_disposed this"
  by (auto simp: detachAllTerminals_def Let_def split: settle.splits)

lemma dispose_disposed: "store_disposed this \<Longrightarrow> dispose this = Some this"
  by (simp add: dispose_def)

lemma dispose_sets_flag:
  assumes "dispose this = Some this'"
  shows "store_disposed this'"
proof (cases "store_disposed this")
  case True
  with assms show ?thesis by (simp add: dispose_def)
next
  case False
  with assms obtain this1 where d: "detachAllTerminals (this\<lparr>store_disposed := True\<rparr>) = Some this1"
    and flag: "store_disposed this' = store_disposed this1"
    by (auto simp: dispose_def Let_def split: option.splits bolt_dispose.splits settle.splits)
  from detachAllTerminals_flag [OF d] flag show ?thesis by simp
qed

text \<open>
  Claim C7. Disposal is idempotent for the file watcher and for the terminal store. The
  first \<open>disposeFileWatcher\<close> sets the flag and clears the shared poll timer and every
  tracked interval once; a second call returns the state unchanged, so nothing is cleared
  again. \<open>dispose\<close> of the store returns at once when the flag is set, and the flag is set
  in every state a completed \<open>dispose\<close> returns, so calling it again changes nothing: no
  further \<open>kill()\<close> and no further disposal of the bolt terminal.
\<close>

theorem dispose_twice:
  "disposeFileWatcher (disposeFileWatcher w) = disposeFileWatcher w
   \<and> disposed (disposeFileWatcher w)
   \<and> (disposed w \<longrightarrow> disposeFileWatcher w = w)
   \<and> (\<not> disposed w \<longrightarrow>
        clearInterval_log (disposeFileWatcher w) =
          clearInterval_log w @ (case pollingInterval w of None \<Rightarrow> [] | Some t \<Rightarrow> [t])
            @ individualIntervals w)
   \<and> clearInterval_log (disposeFileWatcher (disposeFileWatcher w))
       = clearInterval_log (disposeFileWatcher w)
   \<and> (store_disposed this \<longrightarrow> dispose this = Some this)
   \<and> (\<forall>this'. dispose this = Some this' \<longrightarrow> store_disposed this' \<and> dispose this' = Some this')"
proof -
  have twice: "disposeFileWatcher (disposeFileWatcher w) = disposeFileWatcher w"
    by (rule disposeFileWatcher_disposed) simp
  have store: "store_disposed this' \<and> dispose this' = Some this'" if "dispose this = Some this'" for this'
    using dispose_sets_flag [OF that] by (simp add: dispose_disposed)
  have log: "\<not> disposed w \<longrightarrow>
        clearInterval_log (disposeFileWatcher w) =
          clearInterval_log w @ (case pollingInterval w of None \<Rightarrow> [] | Some t \<Rightarrow> [t])
            @ individualIntervals w"
    by (simp add: disposeFileWatcher_releases)
  have flag: "disposed (disposeFileWatcher w)"
    by simp
  have again: "store_disposed this \<longrightarrow> dispose this = Some this"
    by (simp add: dispose_disposed)
  have log2: "clearInterval_log (disposeFileWatcher (disposeFileWatcher w))
       = clearInterval_log (disposeFileWatcher w)"
    by (simp only: twice)
  have early: "disposed w \<longrightarrow> disposeFileWatcher w = w"
    by (simp add: disposeFileWatcher_disposed)
  from twice flag early log log2 again store show ?thesis
    by blast
qed


text \<open>A watcher with a running poll timer and two intervals, and the store of three terminals.\<close>

theorem dispose_twice_witness:
  "\<not> disposed w_busy
   \<and> pollingInterval w_busy = Some 1 \<and> individualIntervals w_busy = [3, 4]
   \<and> clearInterval_log (disposeFileWatcher w_busy) = [1, 3, 4]
   \<and> disposeFileWatcher (disposeFileWatcher w_busy) = disposeFileWatcher w_busy
   \<and> clearInterval_log (disposeFileWatcher (disposeFileWatcher w_busy)) = [1, 3, 4]
   \<and> (case dispose three_terminals of
        None \<Rightarrow> False
      | Some this' \<Rightarrow>
          store_disposed this' \<and> kill_log this' = [11, 12, 13]
          \<and> boltTerminal_dispose_calls this' = 1 \<and> dispose this' = Some this')"
proof -
  have w: "\<not> disposed w_busy" "pollingInterval w_busy = Some 1" "individualIntervals w_busy = [3, 4]"
    "clearInterval_log w_busy = []"
    by (simp_all add: w_busy_def world_eval)
  obtain this' where d: "dispose three_terminals = Some this'"
    and k: "kill_log this' = [11, 12, 13]" "boltTerminal_dispose_calls this' = 1"
    by (simp add: dispose_def detachAllTerminals_def three_terminals_def terminate_def
        allSettled_def kill_warnings_def Let_def)
  have t: "store_disposed this' \<and> dispose this' = Some this'"
    using dispose_twice [of w_busy three_terminals] d by blast
  have l: "clearInterval_log (disposeFileWatcher w_busy) = [1, 3, 4]"
    using dispose_twice [of w_busy three_terminals] w by simp
  have e: "disposeFileWatcher (disposeFileWatcher w_busy) = disposeFileWatcher w_busy"
    using dispose_twice [of w_busy three_terminals] by blast
  show ?thesis
    by (simp only: e l w d k t option.case simp_thms)
qed

end
